theory Spec2Isabelle
  imports Main "HOL-Library.List_Lexorder" "HOL-Library.Char_ord"
begin

section \<open>JavaScript values shared by both components\<close>

text \<open>
  A thrown JavaScript value. The source throws \<^verbatim>\<open>new Error(...)\<close> itself
  (line 33); a \<^verbatim>\<open>TypeError\<close> is what the engine throws when a property of
  \<^verbatim>\<open>undefined\<close> is read or a non-function is called. Errors of the libraries
  (node-fetch, fast-xml-parser, unzipper) arrive as one of the two.
\<close>

datatype error = Error string | TypeError string

fun message :: "error \<Rightarrow> string" where
  "message (Error m) = m"
| "message (TypeError m) = m"

text \<open>The settled state of a promise: an \<^verbatim>\<open>await\<close> on it yields the value or throws the reason.\<close>

datatype 'a promise = Fulfilled 'a | Rejected error

text \<open>
  \<^verbatim>\<open>Promise.all\<close> over promises, each paired with the time at which it settles.
  When every promise is fulfilled the result holds the values in the order of the
  argument list, whatever the order of completion. Otherwise the result is rejected with
  the reason of the promise that rejects first in time (among promises rejecting at the
  same time, the one whose reaction was queued first, that is the leftmost).
\<close>

primrec fulfilments :: "(nat \<times> 'a promise) list \<Rightarrow> 'a list" where
  "fulfilments [] = []"
| "fulfilments (p # ps) =
     (case snd p of Fulfilled v \<Rightarrow> v # fulfilments ps | Rejected e \<Rightarrow> fulfilments ps)"

primrec rejections :: "(nat \<times> 'a promise) list \<Rightarrow> (nat \<times> error) list" where
  "rejections [] = []"
| "rejections (p # ps) =
     (case snd p of Fulfilled v \<Rightarrow> rejections ps | Rejected e \<Rightarrow> (fst p, e) # rejections ps)"

primrec first_settled :: "(nat \<times> error) \<Rightarrow> (nat \<times> error) list \<Rightarrow> (nat \<times> error)" where
  "first_settled r [] = r"
| "first_settled r (x # xs) = first_settled (if fst x < fst r then x else r) xs"

definition Promise_all :: "(nat \<times> 'a promise) list \<Rightarrow> 'a list promise" where
  "Promise_all ps =
     (case rejections ps of
        [] \<Rightarrow> Fulfilled (fulfilments ps)
      | r # rs \<Rightarrow> Rejected (snd (first_settled r rs)))"

text \<open>
  \<^verbatim>\<open>Array.prototype.map\<close> and \<^verbatim>\<open>Array.prototype.reduce\<close> with a callback that may
  throw: the elements are visited from left to right and the first throw ends the call.
\<close>

primrec array_map :: "('a \<Rightarrow> error + 'b) \<Rightarrow> 'a list \<Rightarrow> error + 'b list" where
  "array_map f [] = Inr []"
| "array_map f (x # xs) =
     (case f x of
        Inl e \<Rightarrow> Inl e
      | Inr y \<Rightarrow> (case array_map f xs of Inl e \<Rightarrow> Inl e | Inr ys \<Rightarrow> Inr (y # ys)))"

primrec array_reduce :: "('b \<Rightarrow> 'a \<Rightarrow> error + 'b) \<Rightarrow> 'a list \<Rightarrow> 'b \<Rightarrow> error + 'b" where
  "array_reduce f [] acc = Inr acc"
| "array_reduce f (x # xs) acc =
     (case f acc x of Inl e \<Rightarrow> Inl e | Inr acc' \<Rightarrow> array_reduce f xs acc')"

text \<open>
  \<^verbatim>\<open>Array.prototype.sort(compare)\<close>: \<^verbatim>\<open>a\<close> stays before \<^verbatim>\<open>b\<close> when
  \<^verbatim>\<open>compare(a, b) <= 0\<close>, and the sort is stable. For a consistent comparator every
  stable sort returns the same array, so insertion from the right stands for the
  engine's algorithm; for an inconsistent comparator the language leaves the order to
  the implementation, and the theorems below assume consistency where they speak of order.
\<close>

primrec insert_sorted :: "('a \<Rightarrow> 'a \<Rightarrow> int) \<Rightarrow> 'a \<Rightarrow> 'a list \<Rightarrow> 'a list" where
  "insert_sorted compare x [] = [x]"
| "insert_sorted compare x (y # ys) =
     (if compare x y \<le> 0 then x # y # ys else y # insert_sorted compare x ys)"

definition array_sort :: "('a \<Rightarrow> 'a \<Rightarrow> int) \<Rightarrow> 'a list \<Rightarrow> 'a list" where
  "array_sort compare xs = foldr (insert_sorted compare) xs []"

section \<open>Data model\<close>

text \<open>
  \<^verbatim>\<open>type SnarfSitePackageItem\<close> (lines 10-16). The nested
  \<^verbatim>\<open>entry: { "@_url": string }\<close> is the field \<open>entry_url\<close>.
\<close>

record SnarfSitePackageItem =
  at_category :: string
  at_name :: string
  at_version :: string
  description :: string
  entry_url :: string

text \<open>
  Modelled from the spec: the class \<^verbatim>\<open>AsyncItem\<close> of \<^verbatim>\<open>./asyncTree\<close> is not among
  the sources. It is the spec's Tree Node: a display node holding what its constructor
  was given (label, tooltip, description, icon, backing record, context value, children);
  a field the constructor call leaves out is \<open>None\<close>, and absent children are \<open>[]\<close>.
\<close>

datatype AsyncItem =
  AsyncItem (label: string) (tooltip: "string option") (item_description: "string option")
    (iconId: string) (item: "SnarfSitePackageItem option") (contextValue: "string option")
    (children: "AsyncItem list")

text \<open>
  What \<^verbatim>\<open>parser.parse(content, { ignoreAttributes: false })\<close> returns, as far as
  \<^verbatim>\<open>fetchSite\<close> reads it: \<^verbatim>\<open>xml.snarf_site\<close> (undefined when the document has another
  root), its \<^verbatim>\<open>@_name\<close>, and its \<^verbatim>\<open>package\<close>, which the parser leaves undefined
  when the root has no package element, makes one record when it has one, and an array
  when it has several.
\<close>

datatype package_field =
  Absent | Single SnarfSitePackageItem | Many "SnarfSitePackageItem list"

record snarf_site_element =
  site_name :: string
  package :: package_field

record xml_document =
  snarf_site :: "snarf_site_element option"

text \<open>
  An HTTP response of node-fetch: \<^verbatim>\<open>resp.ok\<close>, and what \<^verbatim>\<open>resp.text()\<close> and
  \<^verbatim>\<open>resp.buffer()\<close> settle to.
\<close>

record http_response =
  ok :: bool
  body_text :: "error + string"
  body_buffer :: "error + string"

text \<open>
  The environment of the Manifest Aggregator: the network (\<open>fetch\<close>; \<open>Inl\<close> is a
  transport error), the time at which the promise \<^verbatim>\<open>fetchSite(url)\<close> settles, the XML
  parser, and \<^verbatim>\<open>String.prototype.localeCompare\<close> of the host's locale.
\<close>

record web =
  fetch :: "string \<Rightarrow> error + http_response"
  settles :: "string \<Rightarrow> nat"
  parse :: "string \<Rightarrow> error + xml_document"
  localeCompare :: "string \<Rightarrow> string \<Rightarrow> int"

text \<open>The value \<^verbatim>\<open>fetchSite\<close> resolves to. An element \<open>None\<close> of \<open>packages\<close> is \<^verbatim>\<open>undefined\<close>.\<close>

record site =
  site_label :: string
  packages :: "SnarfSitePackageItem option list"

section \<open>Manifest Aggregator (class SnarfDataProvider)\<close>

text \<open>
  \<^verbatim>\<open>makeItem\<close> (lines 19-29). The argument expressions of the constructor call read
  \<^verbatim>\<open>x["@_name"]\<close> first, which throws a TypeError when \<^verbatim>\<open>x\<close> is undefined.
\<close>

fun makeItem :: "SnarfSitePackageItem option \<Rightarrow> error + (string \<times> AsyncItem)" where
  "makeItem None = Inl (TypeError ''Cannot read properties of undefined (reading @_name)'')"
| "makeItem (Some x) =
     Inr (at_category x,
          AsyncItem (at_name x) (Some (description x)) (Some (at_version x)) ''package''
            (Some x) (Some ''project'') [])"

text \<open>
  The single-or-array normalisation of line 40:
  \<^verbatim>\<open>Array.isArray(p) ? p : [p]\<close>. \<^verbatim>\<open>Array.isArray(undefined)\<close> is false, so a missing
  package field becomes the one-element array \<^verbatim>\<open>[undefined]\<close>.
\<close>

fun normalize :: "package_field \<Rightarrow> SnarfSitePackageItem option list" where
  "normalize (Many ps) = map Some ps"
| "normalize (Single p) = [Some p]"
| "normalize Absent = [None]"

text \<open>\<^verbatim>\<open>fetchSite\<close> (lines 31-42).\<close>

definition fetchSite :: "web \<Rightarrow> string \<Rightarrow> site promise" where
  "fetchSite w url =
     (case fetch w url of
        Inl e \<Rightarrow> Rejected e
      | Inr resp \<Rightarrow>
          if \<not> ok resp
          then Rejected (Error (''Failed to snarf '' @ url @
                 ''. Check the URL and your internet connection.''))
          else (case body_text resp of
             Inl e \<Rightarrow> Rejected e
           | Inr content \<Rightarrow>
               (case parse w content of
                  Inl e \<Rightarrow> Rejected e
                | Inr xml \<Rightarrow>
                    (case snarf_site xml of
                       None \<Rightarrow> Rejected (TypeError
                         ''Cannot read properties of undefined (reading @_name)'')
                     | Some s \<Rightarrow>
                         Fulfilled \<lparr>site_label = site_name s,
                                    packages = normalize (package s)\<rparr>))))"

text \<open>
  The accumulator of the \<^verbatim>\<open>reduce\<close> of lines 51-55 is a plain object used as a
  dictionary: its own properties, in insertion order. One step is
  \<^verbatim>\<open>if (!acc.hasOwnProperty(category)) acc[category] = []; acc[category].push(item)\<close>:
  \<^item> \<^verbatim>\<open>acc.hasOwnProperty\<close> is looked up on the object itself first, so once a category
    named \<^verbatim>\<open>hasOwnProperty\<close> has been stored the call hits an array and throws;
  \<^item> \<^verbatim>\<open>__proto__\<close> is never an own property: the assignment replaces the prototype
    by the fresh array and the push goes to that prototype, so the item is in no own
    property;
  \<^item> any other key is created on first sight and appended to afterwards.
\<close>

primrec push :: "(string \<times> 'a list) list \<Rightarrow> string \<Rightarrow> 'a \<Rightarrow> (string \<times> 'a list) list" where
  "push [] k v = []"
| "push (e # es) k v = (if fst e = k then (fst e, snd e @ [v]) # es else e # push es k v)"

definition group_step ::
  "(string \<times> 'a list) list \<Rightarrow> string \<times> 'a \<Rightarrow> error + (string \<times> 'a list) list" where
  "group_step acc ci =
     (if ''hasOwnProperty'' \<in> set (map fst acc)
      then Inl (TypeError ''acc.hasOwnProperty is not a function'')
      else if fst ci = ''__proto__'' then Inr acc
      else Inr (push (if fst ci \<in> set (map fst acc) then acc else acc @ [(fst ci, [])])
                  (fst ci) (snd ci)))"

text \<open>
  \<^verbatim>\<open>Object.entries\<close>: own properties whose key is an array index (a canonical decimal
  numeral below \<open>2^32 - 1\<close>) come first, in ascending numeric order; the other keys
  follow in insertion order.
\<close>

definition is_digit :: "char \<Rightarrow> bool" where
  "is_digit c = (c \<in> set ''0123456789'')"

definition digit_value :: "char \<Rightarrow> int" where
  "digit_value c = of_char c - 48"

definition numeral_value :: "string \<Rightarrow> int" where
  "numeral_value k = foldl (\<lambda>n c. 10 * n + digit_value c) 0 k"

definition is_array_index :: "string \<Rightarrow> bool" where
  "is_array_index k =
     (k \<noteq> [] \<and> list_all is_digit k \<and> (if hd k = CHR ''0'' then k = ''0'' else True)
      \<and> numeral_value k < 2 ^ 32 - 1)"

definition Object_entries :: "(string \<times> 'a) list \<Rightarrow> (string \<times> 'a) list" where
  "Object_entries obj =
     sort_key (\<lambda>e. numeral_value (fst e)) (filter (\<lambda>e. is_array_index (fst e)) obj)
     @ filter (\<lambda>e. \<not> is_array_index (fst e)) obj"

text \<open>The callback of line 57: one Category node per entry, its children sorted by label.\<close>

definition categoryNode :: "web \<Rightarrow> string \<times> AsyncItem list \<Rightarrow> AsyncItem" where
  "categoryNode w entry =
     AsyncItem (fst entry) None None ''folder'' None None
       (array_sort (\<lambda>a b. localeCompare w (label a) (label b)) (snd entry))"

text \<open>The callback of \<^verbatim>\<open>sites.map\<close> (lines 50-66): the Site node of one fetched site.\<close>

definition siteNode :: "web \<Rightarrow> site \<Rightarrow> error + AsyncItem" where
  "siteNode w s =
     (case array_map makeItem (packages s) of
        Inl e \<Rightarrow> Inl e
      | Inr pairs \<Rightarrow>
          (case array_reduce group_step pairs [] of
             Inl e \<Rightarrow> Inl e
           | Inr items \<Rightarrow>
               Inr (AsyncItem (site_label s) None None ''project'' None None
                      (map (categoryNode w) (Object_entries items)))))"

text \<open>
  \<^verbatim>\<open>fetchData\<close> (lines 44-67), given the configured \<^verbatim>\<open>snarfURLs\<close> (\<open>None\<close> is
  undefined). The first component lists the URLs a request was issued for: every call
  \<^verbatim>\<open>fetchSite(url)\<close> of \<^verbatim>\<open>snarfURLs.map\<close> runs up to its first \<^verbatim>\<open>await\<close>, that is,
  it calls \<^verbatim>\<open>fetch(url)\<close>. The second is what the returned promise settles to;
  \<open>Fulfilled None\<close> is the bare \<^verbatim>\<open>return\<close> of line 46. An empty array is truthy in
  JavaScript, so an empty list passes the guard of line 46.
\<close>

definition fetchData :: "web \<Rightarrow> string list option \<Rightarrow> string list \<times> AsyncItem list option promise" where
  "fetchData w snarfURLs =
     (case snarfURLs of
        None \<Rightarrow> ([], Fulfilled None)
      | Some urls \<Rightarrow>
          (urls,
           case Promise_all (map (\<lambda>url. (settles w url, fetchSite w url)) urls) of
             Rejected e \<Rightarrow> Rejected e
           | Fulfilled sites \<Rightarrow>
               (case array_map (siteNode w) sites of
                  Inl e \<Rightarrow> Rejected e
                | Inr nodes \<Rightarrow> Fulfilled (Some nodes))))"

section \<open>Archive Installer (snarfItem)\<close>

text \<open>
  The calls the installer makes on its collaborators, in the order in which they are made:
  the host's notifications and prompts (\<^verbatim>\<open>window.showInformationMessage(message, ...items)\<close>),
  \<^verbatim>\<open>console.error\<close>, the progress indicator, the timer, the network, the archive library
  and the file system. \<^verbatim>\<open>zip.extract\<close> is the only call that writes to the file system.
\<close>

datatype event =
    ShowInformationMessage string "string list"
  | ConsoleError error
  | WithProgress string string
  | Delay nat
  | Fetch string
  | Buffer
  | OpenBuffer
  | ExistsSync string
  | Extract string nat

text \<open>
  The environment of the installer extends the aggregator's (both call the same
  \<^verbatim>\<open>fetch\<close>): \<^verbatim>\<open>workspace.workspaceFolders\<close> as the list of the folders'
  \<^verbatim>\<open>uri.fsPath\<close> (\<open>None\<close> is undefined: no workspace is open; the API documents the
  list as holding 0 to N folders), \<^verbatim>\<open>unzip.Open.buffer\<close>, \<^verbatim>\<open>path.join\<close>,
  \<^verbatim>\<open>fs.existsSync\<close>, what the user picks in the overwrite prompt (\<open>None\<close>: the prompt
  is dismissed), \<^verbatim>\<open>zip.extract({ path, concurrency })\<close> (\<open>Some e\<close>: it rejects with
  \<open>e\<close>), and the time the download takes. \<open>'z\<close> is the opened archive.
\<close>

record 'z host = web +
  workspaceFolders :: "string list option"
  open_buffer :: "string \<Rightarrow> error + 'z"
  path_join :: "string \<Rightarrow> string \<Rightarrow> string"
  existsSync :: "string \<Rightarrow> bool"
  answer :: "string option"
  zip_extract :: "'z \<Rightarrow> string \<Rightarrow> nat \<Rightarrow> error option"
  elapsed :: nat

text \<open>
  An asynchronous computation, run to its end: the calls it made and what its promise
  settled to. An error inside an \<^verbatim>\<open>async\<close> function is never a synchronous throw of
  the call: it is the rejection of the promise the call returned.
\<close>

type_synonym 'a task = "event list \<times> 'a promise"

text \<open>
  How the synchronous call \<^verbatim>\<open>snarfItem(item)\<close> ends: it returns, it throws, or it
  returns leaving behind the promise of \<^verbatim>\<open>window.withProgress\<close>, which the source neither
  awaits nor returns nor gives a rejection handler. \<open>Dropped (Rejected e)\<close> is therefore
  an unhandled rejection.
\<close>

datatype outcome = Returned | Threw error | Dropped "unit list promise"

text \<open>The prompt of line 99.\<close>

definition overwrite_prompt :: event where
  "overwrite_prompt =
     ShowInformationMessage ''Directory already exists. Overwrite?'' [''Yes'', ''No'']"

text \<open>
  Modelled from the spec: \<^verbatim>\<open>delay\<close> of \<^verbatim>\<open>./utils\<close> is not among the sources. It is the
  spec's minimum visible-progress delay: a timer whose promise is fulfilled after the
  given time and never rejects.
\<close>

definition delay :: "nat \<Rightarrow> unit task" where
  "delay ms = ([Delay ms], Fulfilled ())"

text \<open>
  \<^verbatim>\<open>window.withProgress(options, task)\<close> of the host: it shows the indicator, calls the
  task and returns the task's promise. It does not throw synchronously (\<open>Inr\<close>).
\<close>

definition withProgress :: "string \<Rightarrow> string \<Rightarrow> 'a task \<Rightarrow> error + 'a task" where
  "withProgress viewId title task = Inr (WithProgress viewId title # fst task, snd task)"

text \<open>
  \<^verbatim>\<open>downloadItem\<close> (lines 91-105), an \<^verbatim>\<open>async\<close> arrow function closed over
  \<^verbatim>\<open>pack\<close> and \<^verbatim>\<open>dir\<close>. Each \<^verbatim>\<open>await\<close> either yields a value or ends the function
  with its promise rejected. The order is that of the source: fetch, buffer, open the
  archive, and only then the existence check, the prompt and the extraction.
\<close>

definition downloadItem ::
  "'z host \<Rightarrow> SnarfSitePackageItem option \<Rightarrow> string \<Rightarrow> unit task" where
  "downloadItem env pack dir =
     (case pack of
        None \<Rightarrow>
          ([], Rejected (TypeError ''Cannot read properties of undefined (reading entry)''))
      | Some p \<Rightarrow>
     (case fetch env (entry_url p) of
        Inl e \<Rightarrow> ([Fetch (entry_url p)], Rejected e)
      | Inr resp \<Rightarrow>
     (case body_buffer resp of
        Inl e \<Rightarrow> ([Fetch (entry_url p), Buffer], Rejected e)
      | Inr zipfile \<Rightarrow>
     (case open_buffer env zipfile of
        Inl e \<Rightarrow> ([Fetch (entry_url p), Buffer, OpenBuffer], Rejected e)
      | Inr archive \<Rightarrow>
          (let unzipPath = path_join env dir (at_name p);
               before = [Fetch (entry_url p), Buffer, OpenBuffer, ExistsSync unzipPath]
                          @ (if existsSync env unzipPath then [overwrite_prompt] else [])
           in if existsSync env unzipPath \<and> answer env \<noteq> Some ''Yes''
              then (before, Fulfilled ())
              else (case zip_extract env archive unzipPath 5 of
                      Some e \<Rightarrow> (before @ [Extract unzipPath 5], Rejected e)
                    | None \<Rightarrow>
                        (before @ [Extract unzipPath 5,
                           ShowInformationMessage
                             (''Succesfully snarfed '' @ at_name p @ ''.'') []],
                         Fulfilled ())))))))"

text \<open>
  \<^verbatim>\<open>snarfItem\<close> (lines 85-115).
  \<^item> Line 88, \<^verbatim>\<open>workspace.workspaceFolders?.[0].uri.fsPath\<close>: the optional chain stops
    only when \<^verbatim>\<open>workspaceFolders\<close> itself is undefined. On an empty list
    \<^verbatim>\<open>[0]\<close> is undefined and reading \<^verbatim>\<open>.uri\<close> of it throws, outside the
    \<^verbatim>\<open>try\<close>.
  \<^item> Line 89, \<^verbatim>\<open>!dir\<close>: true for undefined and for the empty string.
  \<^item> Lines 107-114: the body of the \<^verbatim>\<open>try\<close> calls \<^verbatim>\<open>window.withProgress\<close> and
    drops the promise it returns. The \<^verbatim>\<open>catch\<close> clause handles what that call throws
    synchronously (\<open>Inl\<close>); a rejection of the promise does not pass through it.
\<close>

definition snarfItem :: "'z host \<Rightarrow> AsyncItem \<Rightarrow> event list \<times> outcome" where
  "snarfItem env it =
     (let pack = item it;
          no_folder = ([ShowInformationMessage ''Please open a folder first.'' []], Returned)
      in case workspaceFolders env of
           None \<Rightarrow> no_folder
         | Some [] \<Rightarrow>
             ([], Threw (TypeError ''Cannot read properties of undefined (reading uri)''))
         | Some (dir # others) \<Rightarrow>
             if dir = [] then no_folder
             else (case withProgress ''snarferBrowser'' ''Snarfing...''
                          (fst (delay 1000) @ fst (downloadItem env pack dir),
                           Promise_all [(1000, snd (delay 1000)),
                                        (elapsed env, snd (downloadItem env pack dir))]) of
                     Inl err \<Rightarrow>
                       ([ShowInformationMessage (''An error occurred: '' @ message err) [],
                         ConsoleError err], Returned)
                   | Inr running \<Rightarrow> (fst running, Dropped (snd running))))"

section \<open>Concrete environments\<close>

text \<open>
  A consistent comparator that stands for \<^verbatim>\<open>localeCompare\<close> in the examples: the order
  of the character codes.
\<close>

definition string_compare :: "string \<Rightarrow> string \<Rightarrow> int" where
  "string_compare a b = (if a < b then - 1 else if a = b then 0 else 1)"

definition cherry :: SnarfSitePackageItem where
  "cherry = \<lparr>at_category = ''fruit'', at_name = ''cherry'', at_version = ''1.0'',
              description = ''A cherry'', entry_url = ''a/cherry.zip''\<rparr>"

definition kale :: SnarfSitePackageItem where
  "kale = \<lparr>at_category = ''veg'', at_name = ''kale'', at_version = ''2.1'',
            description = ''Some kale'', entry_url = ''a/kale.zip''\<rparr>"

definition banana :: SnarfSitePackageItem where
  "banana = \<lparr>at_category = ''fruit'', at_name = ''banana'', at_version = ''0.3'',
              description = ''A banana'', entry_url = ''a/banana.zip''\<rparr>"

text \<open>
  Four sites: \<open>a\<close> serves a manifest with three packages, \<open>b\<close> one with a single
  package, \<open>e\<close> one whose root has no package element, and any other URL answers with a
  non-success status.
\<close>

definition demo_web :: web where
  "demo_web =
     \<lparr>fetch = (\<lambda>url.
         if url = ''a'' then Inr \<lparr>ok = True, body_text = Inr ''A'', body_buffer = Inr ''A''\<rparr>
         else if url = ''b'' then Inr \<lparr>ok = True, body_text = Inr ''B'', body_buffer = Inr ''B''\<rparr>
         else if url = ''e'' then Inr \<lparr>ok = True, body_text = Inr ''E'', body_buffer = Inr ''E''\<rparr>
         else Inr \<lparr>ok = False, body_text = Inr ''Not Found'', body_buffer = Inr ''Not Found''\<rparr>),
       settles = (\<lambda>url. length url),
       parse = (\<lambda>content.
         if content = ''A''
         then Inr \<lparr>snarf_site = Some \<lparr>site_name = ''Site A'', package = Many [cherry, kale, banana]\<rparr>\<rparr>
         else if content = ''B''
         then Inr \<lparr>snarf_site = Some \<lparr>site_name = ''Site B'', package = Single cherry\<rparr>\<rparr>
         else if content = ''E''
         then Inr \<lparr>snarf_site = Some \<lparr>site_name = ''Site E'', package = Absent\<rparr>\<rparr>
         else Inl (Error ''not a manifest'')),
       localeCompare = string_compare\<rparr>"

text \<open>
  The same sites, except that the request to \<open>r\<close> is refused (a transport error), and
  that this refusal comes back at time 1 while every other site settles at time 5.
\<close>

definition refused_web :: web where
  "refused_web =
     demo_web\<lparr>fetch := (fetch demo_web)(''r'' := Inl (Error ''connect ECONNREFUSED'')),
               settles := (\<lambda>url. if url = ''r'' then 1 else 5)\<rparr>"

definition package_node :: "SnarfSitePackageItem \<Rightarrow> AsyncItem" where
  "package_node x =
     AsyncItem (at_name x) (Some (description x)) (Some (at_version x)) ''package''
       (Some x) (Some ''project'') []"

definition fruit_node :: AsyncItem where
  "fruit_node =
     AsyncItem ''fruit'' None None ''folder'' None None [package_node banana, package_node cherry]"

definition site_a_node :: AsyncItem where
  "site_a_node =
     AsyncItem ''Site A'' None None ''project'' None None
       [fruit_node, AsyncItem ''veg'' None None ''folder'' None None [package_node kale]]"

definition site_b_node :: AsyncItem where
  "site_b_node =
     AsyncItem ''Site B'' None None ''project'' None None
       [AsyncItem ''fruit'' None None ''folder'' None None [package_node cherry]]"

text \<open>
  A host with the workspace folder \<open>/w\<close>, in which \<open>/w/cherry\<close> exists already and the
  user answers No. The archive of \<open>cherry\<close> opens; the bytes served for \<open>kale\<close> are not
  an archive.
\<close>

definition demo_host :: "string list host" where
  "demo_host =
     \<lparr>fetch = (\<lambda>url.
         if url = ''a/cherry.zip''
         then Inr \<lparr>ok = True, body_text = Inr ''PK'', body_buffer = Inr ''PK''\<rparr>
         else if url = ''a/kale.zip''
         then Inr \<lparr>ok = True, body_text = Inr ''not a zip'', body_buffer = Inr ''not a zip''\<rparr>
         else Inl (Error ''request failed'')),
       settles = (\<lambda>url. 0),
       parse = (\<lambda>content. Inl (Error ''not a manifest'')),
       localeCompare = string_compare,
       workspaceFolders = Some [''/w''],
       open_buffer = (\<lambda>bytes. if bytes = ''PK'' then Inr [''README''] else Inl (Error ''invalid zip'')),
       path_join = (\<lambda>d n. d @ ''/'' @ n),
       existsSync = (\<lambda>p. p = ''/w/cherry''),
       answer = Some ''No'',
       zip_extract = (\<lambda>archive p n. None),
       elapsed = 200\<rparr>"

section \<open>Facts about the JavaScript built-ins\<close>

lemma set_insert_sorted: "set (insert_sorted compare x ys) = insert x (set ys)"
  by (induction ys) auto

lemma set_array_sort: "set (array_sort compare xs) = set xs"
  by (induction xs) (simp_all add: array_sort_def set_insert_sorted)

lemma sorted_insert_sorted:
  assumes total: "\<And>a b. compare a b \<le> 0 \<or> compare b a \<le> 0"
    and trans: "\<And>a b c. compare a b \<le> 0 \<Longrightarrow> compare b c \<le> 0 \<Longrightarrow> compare a c \<le> 0"
    and sorted: "sorted_wrt (\<lambda>a b. compare a b \<le> 0) ys"
  shows "sorted_wrt (\<lambda>a b. compare a b \<le> 0) (insert_sorted compare x ys)"
  using sorted
proof (induction ys)
  case Nil
  then show ?case by simp
next
  case (Cons y ys)
  show ?case
  proof (cases "compare x y \<le> 0")
    case True
    with Cons.prems trans show ?thesis by auto
  next
    case False
    with total have "compare y x \<le> 0" by blast
    with False Cons show ?thesis by (auto simp: set_insert_sorted)
  qed
qed

lemma sorted_array_sort:
  assumes total: "\<And>a b. compare a b \<le> 0 \<or> compare b a \<le> 0"
    and trans: "\<And>a b c. compare a b \<le> 0 \<Longrightarrow> compare b c \<le> 0 \<Longrightarrow> compare a c \<le> 0"
  shows "sorted_wrt (\<lambda>a b. compare a b \<le> 0) (array_sort compare xs)"
proof (induction xs)
  case Nil
  then show ?case by (simp add: array_sort_def)
next
  case (Cons x xs)
  have "array_sort compare (x # xs) = insert_sorted compare x (array_sort compare xs)"
    by (simp add: array_sort_def)
  with Cons sorted_insert_sorted [OF total trans] show ?case by simp
qed

lemma array_map_Inr:
  "array_map f xs = Inr ys \<Longrightarrow> list_all2 (\<lambda>x y. f x = Inr y) xs ys"
  by (induction xs arbitrary: ys) (auto split: sum.splits)

lemma array_map_total:
  "list_all (\<lambda>x. \<exists>y. f x = Inr y) xs \<Longrightarrow> \<exists>ys. array_map f xs = Inr ys"
  by (induction xs) (auto split: sum.splits)

lemma array_map_Inl:
  "x \<in> set xs \<Longrightarrow> f x = Inl e \<Longrightarrow> \<exists>e'. array_map f xs = Inl e'"
  by (induction xs) (auto split: sum.splits)

lemma first_settled_mem: "first_settled r rs \<in> set (r # rs)"
  by (induction rs arbitrary: r) (auto split: if_splits)

lemma rejections_mem:
  "(t, e) \<in> set (rejections ps) \<longleftrightarrow> (t, Rejected e) \<in> set ps"
  by (induction ps) (auto split: promise.splits)

lemma rejections_Nil:
  "rejections ps = [] \<Longrightarrow> map snd ps = map Fulfilled (fulfilments ps)"
  by (induction ps) (auto split: promise.splits)

lemma rejections_Nil_iff: "rejections ps = [] \<longleftrightarrow> (\<forall>p\<in>set ps. \<exists>v. snd p = Fulfilled v)"
  by (induction ps) (auto split: promise.splits)

lemma Promise_all_Fulfilled:
  "Promise_all ps = Fulfilled vs \<Longrightarrow> map snd ps = map Fulfilled vs"
  by (auto simp: Promise_all_def rejections_Nil split: list.splits)

lemma Promise_all_Rejected:
  assumes "Promise_all ps = Rejected e"
  shows "\<exists>t. (t, Rejected e) \<in> set ps"
proof -
  from assms obtain r rs where rs: "rejections ps = r # rs" and e: "e = snd (first_settled r rs)"
    by (auto simp: Promise_all_def split: list.splits)
  have "first_settled r rs \<in> set (rejections ps)"
    using first_settled_mem [of r rs] rs by simp
  then have "(fst (first_settled r rs), e) \<in> set (rejections ps)"
    using e by simp
  then show ?thesis by (auto simp: rejections_mem)
qed

lemma Promise_all_fails:
  assumes "(t, Rejected e) \<in> set ps"
  shows "\<exists>e'. Promise_all ps = Rejected e'"
proof -
  from assms have "(t, e) \<in> set (rejections ps)" by (simp add: rejections_mem)
  then show ?thesis by (cases "rejections ps") (auto simp: Promise_all_def)
qed

lemma Promise_all_total:
  "\<forall>p\<in>set ps. \<exists>v. snd p = Fulfilled v \<Longrightarrow> \<exists>vs. Promise_all ps = Fulfilled vs"
  by (simp add: Promise_all_def rejections_Nil_iff [symmetric])

text \<open>
  Which rejection \<^verbatim>\<open>Promise.all\<close> carries: that of a promise before which every
  rejected promise of the list settles strictly later, and after which every rejected
  promise settles no earlier.
\<close>

lemma first_settled_split:
  "\<exists>A B. r # rs = A @ first_settled r rs # B
     \<and> (\<forall>x\<in>set A. fst (first_settled r rs) < fst x)
     \<and> (\<forall>x\<in>set B. fst (first_settled r rs) \<le> fst x)"
proof (induction rs arbitrary: r)
  case Nil
  show ?case by (rule exI [of _ "[]"], rule exI [of _ "[]"]) simp
next
  case (Cons x xs)
  define r' where "r' = (if fst x < fst r then x else r)"
  define m where "m = first_settled r' xs"
  have step: "first_settled r (x # xs) = m" by (simp add: m_def r'_def)
  from Cons.IH [of r'] obtain A B
    where split: "r' # xs = A @ m # B"
      and before: "\<forall>y\<in>set A. fst m < fst y"
      and after: "\<forall>y\<in>set B. fst m \<le> fst y"
    unfolding m_def by blast
  have le: "fst m \<le> fst r'"
  proof (cases A)
    case Nil
    with split have "r' = m" by simp
    then show ?thesis by simp
  next
    case (Cons a A')
    with split have "r' \<in> set A" by simp
    with before show ?thesis by fastforce
  qed
  have "\<exists>A B. r # x # xs = A @ m # B
     \<and> (\<forall>y\<in>set A. fst m < fst y) \<and> (\<forall>y\<in>set B. fst m \<le> fst y)"
  proof (cases "fst x < fst r")
    case True
    then have "r' = x" by (simp add: r'_def)
    with split le True have "r # x # xs = (r # A) @ m # B" and "fst m < fst r" by simp_all
    with before after show ?thesis
      by - (rule exI [of _ "r # A"], rule exI [of _ B], simp)
  next
    case False
    then have r': "r' = r" by (simp add: r'_def)
    show ?thesis
    proof (cases A)
      case Nil
      with split r' have "m = r" and "B = xs" by simp_all
      with False after show ?thesis
        by - (rule exI [of _ "[]"], rule exI [of _ "x # xs"], simp)
    next
      case (Cons a A')
      with split r' have a: "a = r" and xs: "xs = A' @ m # B" by simp_all
      from before Cons a have "fst m < fst r" by simp
      with False have "fst m < fst x" by simp
      moreover from xs have "r # x # xs = (r # x # A') @ m # B" by simp
      ultimately show ?thesis
        using before after Cons a
        by - (rule exI [of _ "r # x # A'"], rule exI [of _ B], simp)
    qed
  qed
  then show ?case unfolding step .
qed

lemma rejections_split:
  "rejections ps = A @ (t, e) # B \<Longrightarrow>
   \<exists>P Q. ps = P @ (t, Rejected e) # Q \<and> rejections P = A \<and> rejections Q = B"
proof (induction ps arbitrary: A)
  case Nil
  then show ?case by simp
next
  case (Cons p ps)
  note IH = Cons.IH and prems = Cons.prems
  show ?case
  proof (cases "snd p")
    case (Fulfilled v)
    with prems have "rejections ps = A @ (t, e) # B" by simp
    from IH [OF this] obtain P Q
      where "ps = P @ (t, Rejected e) # Q" "rejections P = A" "rejections Q = B" by blast
    with Fulfilled show ?thesis
      by - (rule exI [of _ "p # P"], rule exI [of _ "Q"], simp)
  next
    case (Rejected e')
    with prems have eq: "(fst p, e') # rejections ps = A @ (t, e) # B" by simp
    show ?thesis
    proof (cases A)
      case Nil
      with eq Rejected have "p = (t, Rejected e)" "rejections ps = B"
        by (auto simp: prod_eq_iff)
      with Nil show ?thesis
        by - (rule exI [of _ "[]"], rule exI [of _ "ps"], simp)
    next
      case (Cons a A')
      with eq have a: "a = (fst p, e')" and rest: "rejections ps = A' @ (t, e) # B" by simp_all
      from IH [OF rest] obtain P Q
        where "ps = P @ (t, Rejected e) # Q" "rejections P = A'" "rejections Q = B" by blast
      with Rejected Cons a show ?thesis
        by - (rule exI [of _ "p # P"], rule exI [of _ "Q"], simp)
    qed
  qed
qed

lemma Promise_all_first_rejection:
  assumes "Promise_all ps = Rejected e"
  shows "\<exists>P t Q. ps = P @ (t, Rejected e) # Q
           \<and> (\<forall>x\<in>set (rejections P). t < fst x) \<and> (\<forall>x\<in>set (rejections Q). t \<le> fst x)"
proof -
  from assms obtain r rs where rs: "rejections ps = r # rs" and e: "e = snd (first_settled r rs)"
    by (auto simp: Promise_all_def split: list.splits)
  let ?m = "first_settled r rs"
  from first_settled_split [of r rs] obtain A B
    where split: "r # rs = A @ ?m # B"
      and before: "\<forall>x\<in>set A. fst ?m < fst x" and after: "\<forall>x\<in>set B. fst ?m \<le> fst x"
    by blast
  from split rs e have "rejections ps = A @ (fst ?m, e) # B" by simp
  from rejections_split [OF this] obtain P Q
    where "ps = P @ (fst ?m, Rejected e) # Q" "rejections P = A" "rejections Q = B" by blast
  with before after show ?thesis by blast
qed

section \<open>Facts about the grouping into categories\<close>

lemma map_fst_push: "map fst (push acc k v) = map fst acc"
  by (induction acc) auto

lemma push_mem:
  "e' \<in> set (push acc k v) \<Longrightarrow> e' \<in> set acc \<or> (\<exists>vs. (k, vs) \<in> set acc \<and> e' = (k, vs @ [v]))"
  by (induction acc) (auto split: if_splits)

lemma group_step_inv:
  assumes step: "group_step acc ci = Inr acc'"
    and inv: "\<forall>e\<in>set acc. \<forall>v\<in>set (snd e). P (fst e) v"
    and new: "P (fst ci) (snd ci)"
  shows "\<forall>e\<in>set acc'. \<forall>v\<in>set (snd e). P (fst e) v"
proof (intro ballI)
  fix e v assume e: "e \<in> set acc'" and v: "v \<in> set (snd e)"
  show "P (fst e) v"
  proof (cases "fst ci = ''__proto__''")
    case True
    with step have "acc' = acc" by (auto simp: group_step_def split: if_splits)
    with inv e v show ?thesis by blast
  next
    case False
    define base where "base = (if fst ci \<in> set (map fst acc) then acc else acc @ [(fst ci, [])])"
    from step False have acc': "acc' = push base (fst ci) (snd ci)"
      by (auto simp: group_step_def base_def split: if_splits)
    have base: "\<forall>e\<in>set base. \<forall>v\<in>set (snd e). P (fst e) v"
      using inv by (auto simp: base_def)
    from e acc' push_mem [of e base "fst ci" "snd ci"]
    consider "e \<in> set base" | vs where "(fst ci, vs) \<in> set base" "e = (fst ci, vs @ [snd ci])"
      by blast
    then show ?thesis
    proof cases
      case 1
      with base v show ?thesis by blast
    next
      case 2
      with base v new show ?thesis by fastforce
    qed
  qed
qed

lemma array_reduce_group_inv:
  "array_reduce group_step pairs acc = Inr items \<Longrightarrow>
   \<forall>e\<in>set acc. \<forall>v\<in>set (snd e). P (fst e) v \<Longrightarrow>
   \<forall>ci\<in>set pairs. P (fst ci) (snd ci) \<Longrightarrow>
   \<forall>e\<in>set items. \<forall>v\<in>set (snd e). P (fst e) v"
proof (induction pairs arbitrary: acc)
  case Nil
  then show ?case by simp
next
  case (Cons ci pairs)
  from Cons.prems(1) obtain acc' where step: "group_step acc ci = Inr acc'"
    and rest: "array_reduce group_step pairs acc' = Inr items"
    by (auto split: sum.splits)
  have "\<forall>e\<in>set acc'. \<forall>v\<in>set (snd e). P (fst e) v"
    using group_step_inv [OF step Cons.prems(2)] Cons.prems(3) by simp
  with Cons.IH [OF rest] Cons.prems(3) show ?case by simp
qed

lemma group_step_keys:
  "group_step acc ci = Inr acc' \<Longrightarrow> set (map fst acc') \<subseteq> insert (fst ci) (set (map fst acc))"
  by (auto simp: group_step_def map_fst_push simp del: set_map split: if_splits)

lemma group_step_ok:
  "(\<exists>acc'. group_step acc ci = Inr acc') \<longleftrightarrow> ''hasOwnProperty'' \<notin> set (map fst acc)"
  by (auto simp: group_step_def)

lemma array_reduce_group_ok:
  "''hasOwnProperty'' \<notin> set (map fst acc) \<Longrightarrow>
   ''hasOwnProperty'' \<notin> set (map fst (butlast pairs)) \<Longrightarrow>
   \<exists>items. array_reduce group_step pairs acc = Inr items"
proof (induction pairs arbitrary: acc)
  case Nil
  then show ?case by simp
next
  case (Cons ci pairs)
  from Cons.prems(1) obtain acc' where step: "group_step acc ci = Inr acc'"
    using group_step_ok by blast
  show ?case
  proof (cases "pairs = []")
    case True
    with step show ?thesis by simp
  next
    case False
    with Cons.prems(2) have ci: "fst ci \<noteq> ''hasOwnProperty''"
      and rest: "''hasOwnProperty'' \<notin> set (map fst (butlast pairs))" by auto
    from group_step_keys [OF step] ci Cons.prems(1)
    have "''hasOwnProperty'' \<notin> set (map fst acc')" by auto
    from Cons.IH [OF this rest] step show ?thesis by simp
  qed
qed

lemma set_Object_entries: "set (Object_entries obj) = set obj"
  by (auto simp: Object_entries_def)

lemma makeItem_Inr:
  "makeItem p = Inr ci \<Longrightarrow>
   \<exists>x. p = Some x \<and> fst ci = at_category x \<and> label (snd ci) = at_name x \<and> item (snd ci) = Some x
        \<and> children (snd ci) = []"
  by (cases p) auto

lemma makeItem_Inl: "makeItem p = Inl e \<Longrightarrow> p = None"
  by (cases p) auto

lemma array_map_makeItem:
  "array_map makeItem ps = Inr pairs \<Longrightarrow>
   None \<notin> set ps \<and> map (\<lambda>ci. Some (fst ci)) pairs = map (map_option at_category) ps"
  by (induction ps arbitrary: pairs) (auto split: sum.splits dest: makeItem_Inr)

lemma array_map_makeItem_ok:
  "None \<notin> set ps \<Longrightarrow> \<exists>pairs. array_map makeItem ps = Inr pairs"
  by (induction ps) (auto split: sum.splits dest!: makeItem_Inl)

lemma siteNode_label: "siteNode w s = Inr n \<Longrightarrow> label n = site_label s"
  by (auto simp: siteNode_def split: sum.splits)

lemma siteNode_ok:
  assumes "None \<notin> set (packages s)"
    and "Some ''hasOwnProperty'' \<notin> set (map (map_option at_category) (butlast (packages s)))"
  shows "\<exists>n. siteNode w s = Inr n"
proof -
  from assms(1) obtain pairs where pairs: "array_map makeItem (packages s) = Inr pairs"
    using array_map_makeItem_ok by blast
  from array_map_makeItem [OF pairs]
  have "map (\<lambda>ci. Some (fst ci)) pairs = map (map_option at_category) (packages s)" by simp
  then have "map (\<lambda>ci. Some (fst ci)) (butlast pairs)
      = map (map_option at_category) (butlast (packages s))"
    by (metis map_butlast)
  with assms(2) have "Some ''hasOwnProperty'' \<notin> set (map (\<lambda>ci. Some (fst ci)) (butlast pairs))"
    by simp
  then have "''hasOwnProperty'' \<notin> set (map fst (butlast pairs))" by auto
  from array_reduce_group_ok [OF _ this, of "[]"]
  obtain items where "array_reduce group_step pairs [] = Inr items" by auto
  with pairs show ?thesis by (simp add: siteNode_def)
qed

lemma siteNode_children:
  assumes node: "siteNode w s = Inr n" and cat: "c \<in> set (children n)"
  shows "\<exists>entry. label c = fst entry
           \<and> children c = array_sort (\<lambda>a b. localeCompare w (label a) (label b)) (snd entry)
           \<and> (\<forall>v\<in>set (snd entry). \<exists>x. item v = Some x \<and> at_category x = fst entry
                  \<and> label v = at_name x)"
proof -
  let ?P = "\<lambda>k v. \<exists>x. item v = Some x \<and> at_category x = k \<and> label v = at_name x"
  from node obtain pairs items
    where pairs: "array_map makeItem (packages s) = Inr pairs"
      and items: "array_reduce group_step pairs [] = Inr items"
      and n: "n = AsyncItem (site_label s) None None ''project'' None None
                    (map (categoryNode w) (Object_entries items))"
    by (auto simp: siteNode_def split: sum.splits)
  have "\<forall>ci\<in>set pairs. ?P (fst ci) (snd ci)"
  proof
    fix ci assume "ci \<in> set pairs"
    with array_map_Inr [OF pairs] obtain p where "makeItem p = Inr ci"
      by (auto simp: in_set_conv_nth list_all2_conv_all_nth)
    from makeItem_Inr [OF this] show "?P (fst ci) (snd ci)" by auto
  qed
  with array_reduce_group_inv [OF items, of ?P]
  have inv: "\<forall>e\<in>set items. \<forall>v\<in>set (snd e). ?P (fst e) v" by simp
  from cat n obtain entry where entry: "entry \<in> set items" and c: "c = categoryNode w entry"
    by (auto simp: set_Object_entries)
  from inv entry have "\<forall>v\<in>set (snd entry). ?P (fst entry) v" by blast
  with c show ?thesis by (auto simp: categoryNode_def)
qed

lemma siteNode_undefined_package:
  "siteNode w \<lparr>site_label = l, packages = [None]\<rparr> =
     Inl (TypeError ''Cannot read properties of undefined (reading @_name)'')"
  by (simp add: siteNode_def)

lemma siteNode_undefined_element:
  "None \<in> set (packages s) \<Longrightarrow> \<exists>e. siteNode w s = Inl e"
proof -
  assume "None \<in> set (packages s)"
  from array_map_Inl [of None "packages s" makeItem, OF this] obtain e
    where "array_map makeItem (packages s) = Inl e" by auto
  then show ?thesis by (simp add: siteNode_def)
qed

section \<open>Facts about the load\<close>

lemma fetchSite_not_ok:
  "fetch w u = Inr resp \<Longrightarrow> \<not> ok resp \<Longrightarrow>
   fetchSite w u = Rejected (Error (''Failed to snarf '' @ u @
     ''. Check the URL and your internet connection.''))"
  by (simp add: fetchSite_def)

lemma fetchData_Fulfilled:
  assumes "snd (fetchData w (Some urls)) = Fulfilled (Some nodes)"
  shows "\<exists>sites. map (fetchSite w) urls = map Fulfilled sites \<and>
           array_map (siteNode w) sites = Inr nodes"
proof -
  from assms obtain sites
    where all: "Promise_all (map (\<lambda>url. (settles w url, fetchSite w url)) urls) = Fulfilled sites"
      and nodes: "array_map (siteNode w) sites = Inr nodes"
    by (auto simp: fetchData_def split: promise.splits sum.splits)
  from Promise_all_Fulfilled [OF all] have "map (fetchSite w) urls = map Fulfilled sites"
    by (simp add: comp_def)
  with nodes show ?thesis by blast
qed

lemma fetchData_site_faults:
  assumes u: "u \<in> set urls" and site: "fetchSite w u = Fulfilled s"
    and fault: "siteNode w s = Inl e"
  shows "\<exists>e'. snd (fetchData w (Some urls)) = Rejected e'"
proof (cases "Promise_all (map (\<lambda>url. (settles w url, fetchSite w url)) urls)")
  case (Rejected e')
  then show ?thesis by (simp add: fetchData_def)
next
  case (Fulfilled sites)
  from Promise_all_Fulfilled [OF this] have "map (fetchSite w) urls = map Fulfilled sites"
    by (simp add: comp_def)
  moreover from u site have "Fulfilled s \<in> set (map (fetchSite w) urls)" by force
  ultimately have "s \<in> set sites" by auto
  from array_map_Inl [of s sites "siteNode w", OF this fault]
  obtain e' where "array_map (siteNode w) sites = Inl e'" ..
  with Fulfilled show ?thesis by (simp add: fetchData_def)
qed

section \<open>The concrete environments, evaluated\<close>

lemma string_compare_total: "string_compare a b \<le> 0 \<or> string_compare b a \<le> 0"
  by (auto simp: string_compare_def)

lemma string_compare_trans:
  "string_compare a b \<le> 0 \<Longrightarrow> string_compare b c \<le> 0 \<Longrightarrow> string_compare a c \<le> 0"
  by (auto simp: string_compare_def split: if_splits)

lemma demo_localeCompare: "localeCompare demo_web = string_compare"
  by (simp add: demo_web_def)

lemma demo_fetchSite_a:
  "fetchSite demo_web ''a'' =
     Fulfilled \<lparr>site_label = ''Site A'', packages = [Some cherry, Some kale, Some banana]\<rparr>"
  by (simp add: fetchSite_def demo_web_def)

lemma demo_fetchSite_b:
  "fetchSite demo_web ''b'' = Fulfilled \<lparr>site_label = ''Site B'', packages = [Some cherry]\<rparr>"
  by (simp add: fetchSite_def demo_web_def)

lemma demo_fetchSite_e:
  "fetchSite demo_web ''e'' = Fulfilled \<lparr>site_label = ''Site E'', packages = [None]\<rparr>"
  by (simp add: fetchSite_def demo_web_def)

lemma demo_fetch_x:
  "fetch demo_web ''x'' =
     Inr \<lparr>ok = False, body_text = Inr ''Not Found'', body_buffer = Inr ''Not Found''\<rparr>"
  by (simp add: demo_web_def)

lemma demo_categories:
  "at_category cherry = ''fruit''" "at_category kale = ''veg''" "at_category banana = ''fruit''"
  by (simp_all add: cherry_def kale_def banana_def)

lemma demo_names:
  "at_name cherry = ''cherry''" "at_name kale = ''kale''" "at_name banana = ''banana''"
  by (simp_all add: cherry_def kale_def banana_def)

lemma demo_not_index: "\<not> is_array_index ''fruit''" "\<not> is_array_index ''veg''"
  by (simp_all add: is_array_index_def is_digit_def)

lemma demo_compare:
  "string_compare ''banana'' ''cherry'' = - 1" "string_compare ''cherry'' ''banana'' = 1"
  by (simp_all add: string_compare_def)

lemma demo_siteNode_a:
  "siteNode demo_web \<lparr>site_label = ''Site A'', packages = [Some cherry, Some kale, Some banana]\<rparr>
     = Inr site_a_node"
  by (simp add: siteNode_def group_step_def demo_categories Object_entries_def demo_not_index
      categoryNode_def array_sort_def demo_localeCompare demo_names demo_compare
      site_a_node_def fruit_node_def package_node_def)

lemma demo_siteNode_b:
  "siteNode demo_web \<lparr>site_label = ''Site B'', packages = [Some cherry]\<rparr> = Inr site_b_node"
  by (simp add: siteNode_def group_step_def demo_categories Object_entries_def demo_not_index
      categoryNode_def array_sort_def site_b_node_def package_node_def)

lemma demo_fetchData_a:
  "fetchData demo_web (Some [''a'']) = ([''a''], Fulfilled (Some [site_a_node]))"
  by (simp add: fetchData_def Promise_all_def demo_fetchSite_a demo_siteNode_a)

lemma demo_fetchData_b:
  "fetchData demo_web (Some [''b'']) = ([''b''], Fulfilled (Some [site_b_node]))"
  by (simp add: fetchData_def Promise_all_def demo_fetchSite_b demo_siteNode_b)

lemma demo_fetchData_a_b:
  "fetchData demo_web (Some [''a'', ''b'']) =
     ([''a'', ''b''], Fulfilled (Some [site_a_node, site_b_node]))"
  by (simp add: fetchData_def Promise_all_def demo_fetchSite_a demo_fetchSite_b
      demo_siteNode_a demo_siteNode_b)

lemma demo_fetchData_x_r:
  "fetchData refused_web (Some [''x'', ''r'']) =
     ([''x'', ''r''], Rejected (Error ''connect ECONNREFUSED''))"
  by (simp add: fetchData_def Promise_all_def fetchSite_def refused_web_def demo_web_def)

section \<open>Properties of the Manifest Aggregator\<close>

text \<open>
  C9. When the configured list of site URLs is absent or empty, the load issues no fetch,
  raises no error and yields no site node: the promise is fulfilled with nothing
  (absent list) or with the empty list of nodes (empty list, which passes the guard of
  line 46 and reaches \<^verbatim>\<open>Promise.all\<close> of no promise).
\<close>

theorem C9_absent_or_empty_config:
  "fetchData w None = ([], Fulfilled None) \<and> fetchData w (Some []) = ([], Fulfilled (Some []))"
  by (simp add: fetchData_def Promise_all_def)

text \<open>
  C3, as the claim states it, fails: at the site \<open>e\<close> the fetch and the parse succeed
  (\<^verbatim>\<open>fetchSite\<close> is fulfilled), yet the load of the one-element list \<open>[e]\<close> is rejected
  and returns no site node, because the manifest has no package element.
\<close>

theorem C3_counterexample_manifest_without_package:
  "fetchSite demo_web ''e'' = Fulfilled \<lparr>site_label = ''Site E'', packages = [None]\<rparr>
   \<and> fetchData demo_web (Some [''e'']) =
       ([''e''], Rejected (TypeError ''Cannot read properties of undefined (reading @_name)''))"
  by (simp add: demo_fetchSite_e fetchData_def Promise_all_def siteNode_undefined_package)

text \<open>
  C3, amended. For every configured URL list of length N, a load that succeeds returns
  exactly N site nodes, and the i-th node is the Site node built from what the fetch and
  the parse of the i-th configured URL returned (it carries that manifest's name): the
  order is the configured one. That every site fetch and parse succeeds does not make
  the load succeed: a manifest without package element, whose package list holds
  \<^verbatim>\<open>undefined\<close>, makes the load fail.
\<close>

theorem C3_successful_load_one_node_per_url:
  "(snd (fetchData w (Some urls)) = Fulfilled (Some nodes) \<longrightarrow>
      length nodes = length urls \<and>
      (\<forall>i<length urls. \<exists>s. fetchSite w (urls ! i) = Fulfilled s \<and>
          siteNode w s = Inr (nodes ! i) \<and> label (nodes ! i) = site_label s))
   \<and> ((\<exists>u\<in>set urls. \<exists>s. fetchSite w u = Fulfilled s \<and> None \<in> set (packages s))
        \<longrightarrow> (\<exists>e. snd (fetchData w (Some urls)) = Rejected e))"
proof (intro conjI impI)
  assume ok: "snd (fetchData w (Some urls)) = Fulfilled (Some nodes)"
  from fetchData_Fulfilled [OF ok] obtain sites
    where sites: "map (fetchSite w) urls = map Fulfilled sites"
      and nodes: "array_map (siteNode w) sites = Inr nodes" by blast
  from sites have len: "length sites = length urls"
    by (metis length_map)
  from array_map_Inr [OF nodes] have rel: "list_all2 (\<lambda>s n. siteNode w s = Inr n) sites nodes" .
  then show "length nodes = length urls"
    using len by (simp add: list_all2_lengthD)
  show "\<forall>i<length urls. \<exists>s. fetchSite w (urls ! i) = Fulfilled s \<and>
          siteNode w s = Inr (nodes ! i) \<and> label (nodes ! i) = site_label s"
  proof (intro allI impI)
    fix i assume i: "i < length urls"
    from sites i have "fetchSite w (urls ! i) = Fulfilled (sites ! i)"
      by (metis len nth_map)
    moreover from i len have "i < length sites" by simp
    from list_all2_nthD [OF rel this] have "siteNode w (sites ! i) = Inr (nodes ! i)" .
    ultimately show "\<exists>s. fetchSite w (urls ! i) = Fulfilled s \<and>
          siteNode w s = Inr (nodes ! i) \<and> label (nodes ! i) = site_label s"
      using siteNode_label by blast
  qed
next
  assume "\<exists>u\<in>set urls. \<exists>s. fetchSite w u = Fulfilled s \<and> None \<in> set (packages s)"
  then obtain u s where u: "u \<in> set urls" and site: "fetchSite w u = Fulfilled s"
    and none: "None \<in> set (packages s)" by blast
  from siteNode_undefined_element [OF none] obtain e where "siteNode w s = Inl e" ..
  from fetchData_site_faults [OF u site this]
  show "\<exists>e. snd (fetchData w (Some urls)) = Rejected e" .
qed

theorem C3_witness_two_sites:
  "snd (fetchData demo_web (Some [''a'', ''b''])) = Fulfilled (Some [site_a_node, site_b_node])
   \<and> length [site_a_node, site_b_node] = length [''a'', ''b'']
   \<and> label ([site_a_node, site_b_node] ! 0) = ''Site A''
   \<and> label ([site_a_node, site_b_node] ! 1) = ''Site B''
   \<and> fetchSite demo_web ''e'' = Fulfilled \<lparr>site_label = ''Site E'', packages = [None]\<rparr>
   \<and> (\<exists>e. snd (fetchData demo_web (Some [''a'', ''e''])) = Rejected e)"
proof -
  have loaded: "snd (fetchData demo_web (Some [''a'', ''b'']))
      = Fulfilled (Some [site_a_node, site_b_node])"
    by (simp add: demo_fetchData_a_b)
  from C3_successful_load_one_node_per_url
    [of demo_web "[''a'', ''b'']" "[site_a_node, site_b_node]"] loaded
  have "length [site_a_node, site_b_node] = length [''a'', ''b'']"
    and "\<forall>i<length [''a'', ''b'']. \<exists>s. fetchSite demo_web ([''a'', ''b''] ! i) = Fulfilled s
          \<and> siteNode demo_web s = Inr ([site_a_node, site_b_node] ! i)
          \<and> label ([site_a_node, site_b_node] ! i) = site_label s"
    by blast+
  then have labels: "label ([site_a_node, site_b_node] ! 0) = ''Site A''"
    "label ([site_a_node, site_b_node] ! 1) = ''Site B''"
    by (auto simp: demo_fetchSite_a demo_fetchSite_b)
  have "\<exists>u\<in>set [''a'', ''e'']. \<exists>s. fetchSite demo_web u = Fulfilled s \<and> None \<in> set (packages s)"
    by (simp add: demo_fetchSite_e)
  with C3_successful_load_one_node_per_url [of demo_web "[''a'', ''e'']" "[]"]
  have "\<exists>e. snd (fetchData demo_web (Some [''a'', ''e''])) = Rejected e"
    by blast
  with loaded labels show ?thesis by (simp add: demo_fetchSite_e)
qed

text \<open>
  C4, as the claim states it, fails: of the two sites \<open>x\<close> and \<open>r\<close>, \<open>x\<close> answers
  with a non-success status, so that its fetch fails with the message naming \<open>x\<close>, but
  the request to \<open>r\<close> is refused earlier, and the load fails with that transport error,
  which names no URL.
\<close>

theorem C4_counterexample_other_site_fails_first:
  "fetch refused_web ''x'' =
     Inr \<lparr>ok = False, body_text = Inr ''Not Found'', body_buffer = Inr ''Not Found''\<rparr>
   \<and> fetchSite refused_web ''x'' =
       Rejected (Error ''Failed to snarf x. Check the URL and your internet connection.'')
   \<and> fetchData refused_web (Some [''x'', ''r'']) =
       ([''x'', ''r''], Rejected (Error ''connect ECONNREFUSED''))"
  by (simp add: demo_fetchData_x_r) (simp add: fetchSite_def refused_web_def demo_web_def)

text \<open>
  C4, amended. If one of the configured sites answers with a non-success HTTP status,
  its \<^verbatim>\<open>fetchSite\<close> is rejected with the message
  \<^verbatim>\<open>Failed to snarf <url>. Check the URL and your internet connection.\<close>, and the whole
  load is rejected and produces no tree, whatever the other sites answer. The failure of
  the load is the failure of the site that fails first: every failing site before it in
  the list settles strictly later, every failing site after it settles no earlier. So
  the load carries the message naming the offending URL when the other sites succeed,
  and another site's error when that site fails earlier. This holds for a list of any
  length, in particular for two or more URLs.
\<close>

theorem C4_one_failed_site_fails_the_load:
  assumes u: "u \<in> set urls" and resp: "fetch w u = Inr resp" and status: "\<not> ok resp"
  shows "fetchSite w u = Rejected (Error (''Failed to snarf '' @ u @
             ''. Check the URL and your internet connection.''))
       \<and> (\<exists>pre v post e. urls = pre @ v # post \<and> fetchSite w v = Rejected e
              \<and> snd (fetchData w (Some urls)) = Rejected e
              \<and> (\<forall>v'\<in>set pre. (\<exists>e'. fetchSite w v' = Rejected e') \<longrightarrow> settles w v < settles w v')
              \<and> (\<forall>v'\<in>set post. (\<exists>e'. fetchSite w v' = Rejected e') \<longrightarrow> settles w v \<le> settles w v'))
       \<and> ((\<forall>v\<in>set urls. v \<noteq> u \<longrightarrow> (\<exists>s. fetchSite w v = Fulfilled s)) \<longrightarrow>
            snd (fetchData w (Some urls)) = Rejected (Error (''Failed to snarf '' @ u @
              ''. Check the URL and your internet connection.'')))"
proof -
  let ?msg = "Error (''Failed to snarf '' @ u @ ''. Check the URL and your internet connection.'')"
  let ?g = "\<lambda>url. (settles w url, fetchSite w url)"
  let ?ps = "map ?g urls"
  have site: "fetchSite w u = Rejected ?msg"
    using resp status by (rule fetchSite_not_ok)
  from u site have mem: "(settles w u, Rejected ?msg) \<in> set ?ps" by force
  from Promise_all_fails [OF mem] obtain e where e: "Promise_all ?ps = Rejected e" ..
  then have load: "snd (fetchData w (Some urls)) = Rejected e"
    by (simp add: fetchData_def)
  from Promise_all_first_rejection [OF e] obtain P t Q
    where ps: "?ps = P @ (t, Rejected e) # Q"
      and before: "\<forall>x\<in>set (rejections P). t < fst x"
      and after: "\<forall>x\<in>set (rejections Q). t \<le> fst x"
    by blast
  from ps obtain pre v post
    where urls: "urls = pre @ v # post" and P: "P = map ?g pre"
      and v: "?g v = (t, Rejected e)" and Q: "Q = map ?g post"
    by (auto simp: map_eq_append_conv map_eq_Cons_conv)
  from v have t: "t = settles w v" and rej: "fetchSite w v = Rejected e" by simp_all
  have pre: "settles w v < settles w v'" if "v' \<in> set pre" "fetchSite w v' = Rejected e'" for v' e'
  proof -
    from that P have "(settles w v', Rejected e') \<in> set P" by force
    then have "(settles w v', e') \<in> set (rejections P)" by (simp add: rejections_mem)
    with before t show ?thesis by force
  qed
  have post: "settles w v \<le> settles w v'" if "v' \<in> set post" "fetchSite w v' = Rejected e'" for v' e'
  proof -
    from that Q have "(settles w v', Rejected e') \<in> set Q" by force
    then have "(settles w v', e') \<in> set (rejections Q)" by (simp add: rejections_mem)
    with after t show ?thesis by force
  qed
  have first: "\<exists>pre v post e. urls = pre @ v # post \<and> fetchSite w v = Rejected e
              \<and> snd (fetchData w (Some urls)) = Rejected e
              \<and> (\<forall>v'\<in>set pre. (\<exists>e'. fetchSite w v' = Rejected e') \<longrightarrow> settles w v < settles w v')
              \<and> (\<forall>v'\<in>set post. (\<exists>e'. fetchSite w v' = Rejected e') \<longrightarrow> settles w v \<le> settles w v')"
    using urls rej load pre post by blast
  have only: "snd (fetchData w (Some urls)) = Rejected ?msg"
    if others: "\<forall>v\<in>set urls. v \<noteq> u \<longrightarrow> (\<exists>s. fetchSite w v = Fulfilled s)"
  proof -
    from urls have "v \<in> set urls" by simp
    with rej others have "v = u" by (cases "v = u") auto
    with rej site have "e = ?msg" by simp
    with load show ?thesis by simp
  qed
  from site first only show ?thesis by blast
qed

theorem C4_witness_second_site_not_found:
  "\<not> ok \<lparr>ok = False, body_text = Inr ''Not Found'', body_buffer = Inr ''Not Found''\<rparr>
   \<and> 2 \<le> length [''a'', ''x'']
   \<and> fetchSite demo_web ''a'' =
       Fulfilled \<lparr>site_label = ''Site A'', packages = [Some cherry, Some kale, Some banana]\<rparr>
   \<and> snd (fetchData demo_web (Some [''a'', ''x''])) =
       Rejected (Error ''Failed to snarf x. Check the URL and your internet connection.'')"
proof -
  have others: "\<forall>v\<in>set [''a'', ''x'']. v \<noteq> ''x'' \<longrightarrow> (\<exists>s. fetchSite demo_web v = Fulfilled s)"
    by (simp add: demo_fetchSite_a)
  have "''x'' \<in> set [''a'', ''x'']" and "\<not> ok \<lparr>ok = False, body_text = Inr ''Not Found'',
      body_buffer = Inr ''Not Found''\<rparr>"
    by simp_all
  from C4_one_failed_site_fails_the_load [OF this(1) demo_fetch_x this(2)] others
  have "snd (fetchData demo_web (Some [''a'', ''x''])) =
       Rejected (Error (''Failed to snarf '' @ ''x'' @
         ''. Check the URL and your internet connection.''))"
    by blast
  then show ?thesis by (simp add: demo_fetchSite_a)
qed

text \<open>
  C5. A manifest with exactly one package element (the parser returns the record itself)
  yields the same load, hence the same tree, as the otherwise equal manifest whose
  package field is the one-element list: replacing the one by the other in what the
  parser returns changes nothing in the result of \<^verbatim>\<open>fetchData\<close>.
\<close>

theorem C5_single_package_is_a_one_element_list:
  assumes single: "parse w content = Inr \<lparr>snarf_site = Some \<lparr>site_name = n, package = Single p\<rparr>\<rparr>"
  shows "fetchData (w\<lparr>parse := (parse w)(content :=
             Inr \<lparr>snarf_site = Some \<lparr>site_name = n, package = Many [p]\<rparr>\<rparr>)\<rparr>) snarfURLs
         = fetchData w snarfURLs"
proof -
  let ?w' = "w\<lparr>parse := (parse w)(content :=
             Inr \<lparr>snarf_site = Some \<lparr>site_name = n, package = Many [p]\<rparr>\<rparr>)\<rparr>"
  have site: "fetchSite ?w' url = fetchSite w url" for url
    using single by (auto simp: fetchSite_def split: sum.splits option.splits)
  have "categoryNode ?w' = categoryNode w"
    by (rule ext) (simp add: categoryNode_def)
  then have node: "siteNode ?w' = siteNode w"
    by (intro ext) (simp add: siteNode_def split: sum.splits)
  show ?thesis
    by (simp add: fetchData_def site node split: option.splits promise.splits)
qed

theorem C5_witness_site_b:
  "parse demo_web ''B'' = Inr \<lparr>snarf_site = Some \<lparr>site_name = ''Site B'', package = Single cherry\<rparr>\<rparr>
   \<and> fetchData (demo_web\<lparr>parse := (parse demo_web)(''B'' :=
          Inr \<lparr>snarf_site = Some \<lparr>site_name = ''Site B'', package = Many [cherry]\<rparr>\<rparr>)\<rparr>)
        (Some [''b''])
      = ([''b''], Fulfilled (Some [site_b_node]))"
proof -
  have single: "parse demo_web ''B''
      = Inr \<lparr>snarf_site = Some \<lparr>site_name = ''Site B'', package = Single cherry\<rparr>\<rparr>"
    by (simp add: demo_web_def)
  from C5_single_package_is_a_one_element_list [OF single, of "Some [''b'']"] single
  show ?thesis by (simp add: demo_fetchData_b)
qed

text \<open>
  C6. In every tree a successful load produces, every package node under a category node
  carries a package record whose category string is that category node's label (and
  whose name is the package node's label), and the package nodes under a category node
  are sorted ascending by label under \<^verbatim>\<open>localeCompare\<close>, a consistent comparator (total
  and transitive).
\<close>

theorem C6_category_label_and_sorted_children:
  assumes total: "\<forall>a b. localeCompare w a b \<le> 0 \<or> localeCompare w b a \<le> 0"
    and trans: "\<forall>a b c. localeCompare w a b \<le> 0 \<longrightarrow> localeCompare w b c \<le> 0
                  \<longrightarrow> localeCompare w a c \<le> 0"
    and load: "snd (fetchData w snarfURLs) = Fulfilled (Some nodes)"
    and site: "site_node \<in> set nodes"
    and cat: "category_node \<in> set (children site_node)"
  shows "(\<forall>p\<in>set (children category_node).
            \<exists>x. item p = Some x \<and> at_category x = label category_node \<and> label p = at_name x)
       \<and> sorted_wrt (\<lambda>a b. localeCompare w (label a) (label b) \<le> 0) (children category_node)"
proof -
  from load obtain urls where "snarfURLs = Some urls"
    by (cases snarfURLs) (auto simp: fetchData_def)
  with load fetchData_Fulfilled obtain sites where "array_map (siteNode w) sites = Inr nodes"
    by blast
  with site array_map_Inr obtain s where "siteNode w s = Inr site_node"
    by (fastforce simp: in_set_conv_nth list_all2_conv_all_nth)
  from siteNode_children [OF this cat] obtain entry
    where l: "label category_node = fst entry"
      and ch: "children category_node
                 = array_sort (\<lambda>a b. localeCompare w (label a) (label b)) (snd entry)"
      and inv: "\<forall>v\<in>set (snd entry). \<exists>x. item v = Some x \<and> at_category x = fst entry
                  \<and> label v = at_name x"
    by blast
  have "sorted_wrt (\<lambda>a b. localeCompare w (label a) (label b) \<le> 0)
          (array_sort (\<lambda>a b. localeCompare w (label a) (label b)) (snd entry))"
    using total trans by (intro sorted_array_sort) blast+
  with l ch inv show ?thesis by (simp add: set_array_sort)
qed

theorem C6_witness_fruit:
  "snd (fetchData demo_web (Some [''a''])) = Fulfilled (Some [site_a_node])
   \<and> site_a_node \<in> set [site_a_node]
   \<and> fruit_node \<in> set (children site_a_node)
   \<and> map label (children fruit_node) = [''banana'', ''cherry'']
   \<and> list_all (\<lambda>p. map_option at_category (item p) = Some (label fruit_node))
        (children fruit_node)
   \<and> sorted_wrt (\<lambda>a b. localeCompare demo_web (label a) (label b) \<le> 0) (children fruit_node)"
proof -
  have total: "\<forall>a b. localeCompare demo_web a b \<le> 0 \<or> localeCompare demo_web b a \<le> 0"
    by (simp add: demo_localeCompare string_compare_total)
  have trans: "\<forall>a b c. localeCompare demo_web a b \<le> 0 \<longrightarrow> localeCompare demo_web b c \<le> 0
                  \<longrightarrow> localeCompare demo_web a c \<le> 0"
    using string_compare_trans by (auto simp: demo_localeCompare)
  have loaded: "snd (fetchData demo_web (Some [''a''])) = Fulfilled (Some [site_a_node])"
    by (simp add: demo_fetchData_a)
  have site: "site_a_node \<in> set [site_a_node]" by simp
  have cat: "fruit_node \<in> set (children site_a_node)"
    by (simp add: site_a_node_def)
  from C6_category_label_and_sorted_children [OF total trans loaded site cat]
  have "\<forall>p\<in>set (children fruit_node).
          \<exists>x. item p = Some x \<and> at_category x = label fruit_node \<and> label p = at_name x"
    and sorted: "sorted_wrt (\<lambda>a b. localeCompare demo_web (label a) (label b) \<le> 0)
                   (children fruit_node)"
    by blast+
  then have "list_all (\<lambda>p. map_option at_category (item p) = Some (label fruit_node))
               (children fruit_node)"
    by (auto simp: list_all_iff)
  moreover have "map label (children fruit_node) = [''banana'', ''cherry'']"
    by (simp add: fruit_node_def package_node_def demo_names)
  ultimately show ?thesis using loaded cat sorted by simp
qed

text \<open>
  C10. When a fetched manifest parses but its root has no package element, the
  normalisation of line 40 makes the package list the one-element list holding
  \<^verbatim>\<open>undefined\<close> (so \<^verbatim>\<open>fetchSite\<close> is fulfilled, not with an empty list), mapping that
  element with \<^verbatim>\<open>makeItem\<close> throws a TypeError, and the whole load is rejected: no site
  node is produced for any configured URL.
\<close>

theorem C10_manifest_without_package_fails_the_load:
  assumes u: "u \<in> set urls" and resp: "fetch w u = Inr resp" and status: "ok resp"
    and content: "body_text resp = Inr content" and xml: "parse w content = Inr xml"
    and root: "snarf_site xml = Some root" and none: "package root = Absent"
  shows "fetchSite w u = Fulfilled \<lparr>site_label = site_name root, packages = [None]\<rparr>
       \<and> makeItem None = Inl (TypeError ''Cannot read properties of undefined (reading @_name)'')
       \<and> (\<exists>e. snd (fetchData w (Some urls)) = Rejected e)"
proof (intro conjI)
  let ?s = "\<lparr>site_label = site_name root, packages = [None]\<rparr>"
  let ?ps = "map (\<lambda>url. (settles w url, fetchSite w url)) urls"
  show site: "fetchSite w u = Fulfilled ?s"
    using resp status content xml root none by (simp add: fetchSite_def)
  show "makeItem None = Inl (TypeError ''Cannot read properties of undefined (reading @_name)'')"
    by simp
  show "\<exists>e. snd (fetchData w (Some urls)) = Rejected e"
  proof (cases "Promise_all ?ps")
    case (Rejected e)
    then show ?thesis by (simp add: fetchData_def)
  next
    case (Fulfilled sites)
    from Promise_all_Fulfilled [OF this] have "map (fetchSite w) urls = map Fulfilled sites"
      by (simp add: comp_def)
    with u site have "?s \<in> set sites"
      by (metis (no_types, lifting) image_eqI image_set inj_image_mem_iff inj_onI promise.inject(1))
    from array_map_Inl [of ?s sites "siteNode w", OF this siteNode_undefined_package]
    obtain e where "array_map (siteNode w) sites = Inl e" ..
    with Fulfilled show ?thesis by (simp add: fetchData_def)
  qed
qed

theorem C10_witness_site_e:
  "fetchSite demo_web ''e'' = Fulfilled \<lparr>site_label = ''Site E'', packages = [None]\<rparr>
   \<and> (\<exists>e. snd (fetchData demo_web (Some [''a'', ''e''])) = Rejected e)"
proof -
  have "fetch demo_web ''e'' = Inr \<lparr>ok = True, body_text = Inr ''E'', body_buffer = Inr ''E''\<rparr>"
    and "parse demo_web ''E'' = Inr \<lparr>snarf_site = Some \<lparr>site_name = ''Site E'', package = Absent\<rparr>\<rparr>"
    by (simp_all add: demo_web_def)
  from C10_manifest_without_package_fails_the_load
    [of "''e''" "[''a'', ''e'']" demo_web, OF _ this(1) _ _ this(2)]
  show ?thesis by simp
qed

section \<open>Properties of the Archive Installer\<close>

lemma snarfItem_started:
  "workspaceFolders env = Some (dir # others) \<Longrightarrow> dir \<noteq> [] \<Longrightarrow>
   snarfItem env it =
     (WithProgress ''snarferBrowser'' ''Snarfing...'' # Delay 1000
        # fst (downloadItem env (item it) dir),
      Dropped (Promise_all [(1000, Fulfilled ()),
                            (elapsed env, snd (downloadItem env (item it) dir))]))"
  by (simp add: snarfItem_def withProgress_def delay_def Let_def)

lemma downloadItem_rejected_events:
  assumes "snd (downloadItem env pack dir) = Rejected e"
    and "x \<in> set (fst (downloadItem env pack dir))"
  shows "x = overwrite_prompt \<or> x = Buffer \<or> x = OpenBuffer
       \<or> (\<exists>u. x = Fetch u) \<or> (\<exists>p. x = ExistsSync p) \<or> (\<exists>p n. x = Extract p n)"
  using assms
  by (auto simp: downloadItem_def Let_def split: option.splits sum.splits if_splits)

text \<open>
  The promise of \<^verbatim>\<open>downloadItem\<close> is rejected exactly when the download, the buffering,
  the opening of the archive or the extraction is.
\<close>

lemma downloadItem_Rejected_iff:
  "snd (downloadItem env (Some p) dir) = Rejected e \<longleftrightarrow>
     fetch env (entry_url p) = Inl e
     \<or> (\<exists>resp. fetch env (entry_url p) = Inr resp \<and>
          (body_buffer resp = Inl e
           \<or> (\<exists>zipfile. body_buffer resp = Inr zipfile \<and>
                (open_buffer env zipfile = Inl e
                 \<or> (\<exists>archive. open_buffer env zipfile = Inr archive
                      \<and> (existsSync env (path_join env dir (at_name p))
                            \<longrightarrow> answer env = Some ''Yes'')
                      \<and> zip_extract env archive (path_join env dir (at_name p)) 5 = Some e)))))"
  by (auto simp: downloadItem_def Let_def split: sum.splits option.splits)

lemma demo_folder: "workspaceFolders demo_host = Some [''/w'']"
  by (simp add: demo_host_def)

lemma demo_item: "item (package_node x) = Some x"
  by (simp add: package_node_def)

lemma demo_download_kale:
  "downloadItem demo_host (Some kale) ''/w'' =
     ([Fetch ''a/kale.zip'', Buffer, OpenBuffer], Rejected (Error ''invalid zip''))"
  by (simp add: downloadItem_def demo_host_def kale_def)

lemma demo_download_cherry:
  "downloadItem demo_host (Some cherry) ''/w'' =
     ([Fetch ''a/cherry.zip'', Buffer, OpenBuffer, ExistsSync ''/w/cherry'', overwrite_prompt],
      Fulfilled ())"
  by (simp add: downloadItem_def demo_host_def cherry_def)

lemma demo_download_cherry_yes:
  "downloadItem (demo_host\<lparr>answer := Some ''Yes''\<rparr>) (Some cherry) ''/w'' =
     ([Fetch ''a/cherry.zip'', Buffer, OpenBuffer, ExistsSync ''/w/cherry'', overwrite_prompt,
       Extract ''/w/cherry'' 5, ShowInformationMessage ''Succesfully snarfed cherry.'' []],
      Fulfilled ())"
  by (simp add: downloadItem_def demo_host_def cherry_def Let_def)

lemma demo_snarf_cherry:
  "snarfItem demo_host (package_node cherry) =
     ([WithProgress ''snarferBrowser'' ''Snarfing...'', Delay 1000, Fetch ''a/cherry.zip'',
       Buffer, OpenBuffer, ExistsSync ''/w/cherry'', overwrite_prompt],
      Dropped (Fulfilled [(), ()]))"
  by (simp add: snarfItem_started [OF demo_folder] demo_item demo_download_cherry
      Promise_all_def)

text \<open>
  C1. The code does not do what the claim says. Whenever a workspace folder is open and
  the download, the opening of the archive or the extraction fails, so that the promise
  of \<^verbatim>\<open>downloadItem\<close> is rejected with an error \<open>e\<close>, the rejection reaches the promise
  that \<^verbatim>\<open>window.withProgress\<close> returned and stays there unhandled: \<^verbatim>\<open>snarfItem\<close> has
  already returned, no notification other than the overwrite prompt was shown (so none
  with the error's message), and \<^verbatim>\<open>console.error\<close> was not called.
\<close>

theorem C1_install_error_is_not_caught:
  assumes folder: "workspaceFolders env = Some (dir # others)" and nonempty: "dir \<noteq> []"
    and failed: "snd (downloadItem env (item it) dir) = Rejected e"
  shows "snd (snarfItem env it) = Dropped (Rejected e)
       \<and> (\<forall>m items. ShowInformationMessage m items \<in> set (fst (snarfItem env it))
             \<longrightarrow> ShowInformationMessage m items = overwrite_prompt)
       \<and> (\<forall>err. ConsoleError err \<notin> set (fst (snarfItem env it)))"
proof -
  note started = snarfItem_started [OF folder nonempty, of it]
  have "snd (snarfItem env it) = Dropped (Rejected e)"
    by (simp add: started failed Promise_all_def)
  moreover have "x = overwrite_prompt \<or> (\<forall>m items. x \<noteq> ShowInformationMessage m items)"
    and "\<forall>err. x \<noteq> ConsoleError err"
    if "x \<in> set (fst (snarfItem env it))" for x
    using that downloadItem_rejected_events [OF failed, of x]
    by (auto simp: started overwrite_prompt_def)
  ultimately show ?thesis by blast
qed

theorem C1_witness_corrupt_archive:
  "snd (downloadItem demo_host (item (package_node kale)) ''/w'') = Rejected (Error ''invalid zip'')
   \<and> snarfItem demo_host (package_node kale) =
       ([WithProgress ''snarferBrowser'' ''Snarfing...'', Delay 1000, Fetch ''a/kale.zip'',
         Buffer, OpenBuffer],
        Dropped (Rejected (Error ''invalid zip'')))
   \<and> ShowInformationMessage ''An error occurred: invalid zip'' []
        \<notin> set (fst (snarfItem demo_host (package_node kale)))
   \<and> ConsoleError (Error ''invalid zip'') \<notin> set (fst (snarfItem demo_host (package_node kale)))"
proof -
  have failed: "snd (downloadItem demo_host (item (package_node kale)) ''/w'')
      = Rejected (Error ''invalid zip'')"
    by (simp add: demo_item demo_download_kale)
  have run: "snarfItem demo_host (package_node kale) =
       ([WithProgress ''snarferBrowser'' ''Snarfing...'', Delay 1000, Fetch ''a/kale.zip'',
         Buffer, OpenBuffer],
        Dropped (Rejected (Error ''invalid zip'')))"
    by (simp add: snarfItem_started [OF demo_folder] demo_item demo_download_kale
        Promise_all_def)
  from C1_install_error_is_not_caught [OF demo_folder _ failed]
  have "snd (snarfItem demo_host (package_node kale)) = Dropped (Rejected (Error ''invalid zip''))"
    and "\<forall>m items. ShowInformationMessage m items \<in> set (fst (snarfItem demo_host (package_node kale)))
           \<longrightarrow> ShowInformationMessage m items = overwrite_prompt"
    and "\<forall>err. ConsoleError err \<notin> set (fst (snarfItem demo_host (package_node kale)))"
    by simp_all
  then have "ShowInformationMessage ''An error occurred: invalid zip'' []
        \<notin> set (fst (snarfItem demo_host (package_node kale)))"
    and "ConsoleError (Error ''invalid zip'') \<notin> set (fst (snarfItem demo_host (package_node kale)))"
    by (auto simp: overwrite_prompt_def)
  with failed run show ?thesis by simp
qed

text \<open>
  C2, as the claim states it, fails: with the destination \<open>/w/cherry\<close> in place and the
  user answering No, the archive has been fetched, buffered and opened before the prompt
  is shown; the request precedes the prompt in the order of the calls.
\<close>

theorem C2_counterexample_download_precedes_prompt:
  "existsSync demo_host (path_join demo_host ''/w'' (at_name cherry))
   \<and> answer demo_host = Some ''No''
   \<and> fst (snarfItem demo_host (package_node cherry)) =
       [WithProgress ''snarferBrowser'' ''Snarfing...'', Delay 1000, Fetch ''a/cherry.zip'',
        Buffer, OpenBuffer, ExistsSync ''/w/cherry'', overwrite_prompt]
   \<and> Fetch ''a/cherry.zip''
        \<in> set (takeWhile (\<lambda>e. e \<noteq> overwrite_prompt) (fst (snarfItem demo_host (package_node cherry))))"
  by (simp add: demo_snarf_cherry) (simp add: demo_host_def cherry_def overwrite_prompt_def)

text \<open>
  C2, amended. For every install invocation whose destination path already exists, the
  package archive is fetched, buffered and opened first, and the destination is checked;
  the overwrite prompt is presented after that, exactly when the download and the opening
  succeed. The extraction into the destination is never started before the prompt, and
  it is started exactly when the prompt has been presented and answered Yes.
\<close>

theorem C2_prompt_precedes_extraction_not_download:
  assumes folder: "workspaceFolders env = Some (dir # others)" and nonempty: "dir \<noteq> []"
    and pack: "item it = Some pack"
    and exists: "existsSync env (path_join env dir (at_name pack))"
  shows "(overwrite_prompt \<in> set (fst (snarfItem env it)) \<longleftrightarrow>
            (\<exists>resp zipfile archive. fetch env (entry_url pack) = Inr resp
               \<and> body_buffer resp = Inr zipfile \<and> open_buffer env zipfile = Inr archive))
       \<and> (overwrite_prompt \<in> set (fst (snarfItem env it)) \<longrightarrow>
            takeWhile (\<lambda>e. e \<noteq> overwrite_prompt) (fst (snarfItem env it)) =
              [WithProgress ''snarferBrowser'' ''Snarfing...'', Delay 1000,
               Fetch (entry_url pack), Buffer, OpenBuffer,
               ExistsSync (path_join env dir (at_name pack))])
       \<and> (\<forall>p n. Extract p n \<notin> set (takeWhile (\<lambda>e. e \<noteq> overwrite_prompt) (fst (snarfItem env it))))
       \<and> (\<forall>p n. Extract p n \<in> set (fst (snarfItem env it)) \<longrightarrow>
            p = path_join env dir (at_name pack) \<and> n = 5)
       \<and> (Extract (path_join env dir (at_name pack)) 5 \<in> set (fst (snarfItem env it)) \<longleftrightarrow>
            overwrite_prompt \<in> set (fst (snarfItem env it)) \<and> answer env = Some ''Yes'')"
  using exists
  by (auto simp: snarfItem_started [OF folder nonempty] pack downloadItem_def Let_def
      overwrite_prompt_def split: sum.splits option.splits if_splits)

theorem C2_witness_overwrite_accepted:
  "existsSync (demo_host\<lparr>answer := Some ''Yes''\<rparr>)
     (path_join (demo_host\<lparr>answer := Some ''Yes''\<rparr>) ''/w'' (at_name cherry))
   \<and> fst (snarfItem (demo_host\<lparr>answer := Some ''Yes''\<rparr>) (package_node cherry)) =
       [WithProgress ''snarferBrowser'' ''Snarfing...'', Delay 1000, Fetch ''a/cherry.zip'',
        Buffer, OpenBuffer, ExistsSync ''/w/cherry'', overwrite_prompt,
        Extract ''/w/cherry'' 5, ShowInformationMessage ''Succesfully snarfed cherry.'' []]
   \<and> overwrite_prompt
        \<in> set (fst (snarfItem (demo_host\<lparr>answer := Some ''Yes''\<rparr>) (package_node cherry)))
   \<and> takeWhile (\<lambda>e. e \<noteq> overwrite_prompt)
        (fst (snarfItem (demo_host\<lparr>answer := Some ''Yes''\<rparr>) (package_node cherry))) =
       [WithProgress ''snarferBrowser'' ''Snarfing...'', Delay 1000, Fetch ''a/cherry.zip'',
        Buffer, OpenBuffer, ExistsSync ''/w/cherry'']
   \<and> Extract ''/w/cherry'' 5
        \<in> set (fst (snarfItem (demo_host\<lparr>answer := Some ''Yes''\<rparr>) (package_node cherry)))"
proof -
  let ?env = "demo_host\<lparr>answer := Some ''Yes''\<rparr>"
  have folder: "workspaceFolders ?env = Some [''/w'']"
    by (simp add: demo_host_def)
  have exists: "existsSync ?env (path_join ?env ''/w'' (at_name cherry))"
    by (simp add: demo_host_def cherry_def)
  have download: "fetch ?env (entry_url cherry)
        = Inr \<lparr>ok = True, body_text = Inr ''PK'', body_buffer = Inr ''PK''\<rparr>"
    and opened: "open_buffer ?env ''PK'' = Inr [''README'']"
    and yes: "answer ?env = Some ''Yes''"
    and path: "path_join ?env ''/w'' (at_name cherry) = ''/w/cherry''"
    and url: "entry_url cherry = ''a/cherry.zip''"
    by (simp_all add: demo_host_def cherry_def)
  have run: "fst (snarfItem ?env (package_node cherry)) =
       [WithProgress ''snarferBrowser'' ''Snarfing...'', Delay 1000, Fetch ''a/cherry.zip'',
        Buffer, OpenBuffer, ExistsSync ''/w/cherry'', overwrite_prompt,
        Extract ''/w/cherry'' 5, ShowInformationMessage ''Succesfully snarfed cherry.'' []]"
    by (simp add: snarfItem_started [OF folder] demo_item demo_download_cherry_yes)
  note inst = C2_prompt_precedes_extraction_not_download [OF folder _ demo_item exists]
  from download opened have succeeded:
    "\<exists>resp zipfile archive. fetch ?env (entry_url cherry) = Inr resp
       \<and> body_buffer resp = Inr zipfile \<and> open_buffer ?env zipfile = Inr archive"
    by simp
  with inst have prompt: "overwrite_prompt \<in> set (fst (snarfItem ?env (package_node cherry)))"
    by simp
  with inst yes have "takeWhile (\<lambda>e. e \<noteq> overwrite_prompt) (fst (snarfItem ?env (package_node cherry))) =
       [WithProgress ''snarferBrowser'' ''Snarfing...'', Delay 1000, Fetch (entry_url cherry),
        Buffer, OpenBuffer, ExistsSync (path_join ?env ''/w'' (at_name cherry))]"
    and "Extract (path_join ?env ''/w'' (at_name cherry)) 5
        \<in> set (fst (snarfItem ?env (package_node cherry)))"
    by simp_all
  with exists run prompt show ?thesis by (simp only: path url simp_thms)
qed

text \<open>
  C7. For every install invocation whose destination path already exists and in which
  the user's answer to the overwrite prompt is anything but Yes (No, or the prompt
  dismissed), nothing is extracted (no file system write), and no message is shown but
  the prompt itself: no success message and no error message; nothing is logged either.
\<close>

theorem C7_declined_overwrite_is_silent:
  assumes folder: "workspaceFolders env = Some (dir # others)" and nonempty: "dir \<noteq> []"
    and pack: "item it = Some pack"
    and exists: "existsSync env (path_join env dir (at_name pack))"
    and declined: "answer env \<noteq> Some ''Yes''"
  shows "(\<forall>p n. Extract p n \<notin> set (fst (snarfItem env it)))
       \<and> (\<forall>m items. ShowInformationMessage m items \<in> set (fst (snarfItem env it))
             \<longrightarrow> ShowInformationMessage m items = overwrite_prompt)
       \<and> (\<forall>err. ConsoleError err \<notin> set (fst (snarfItem env it)))"
  using exists declined
  by (auto simp: snarfItem_started [OF folder nonempty] pack downloadItem_def Let_def
      overwrite_prompt_def split: sum.splits)

theorem C7_witness_overwrite_declined:
  "existsSync demo_host (path_join demo_host ''/w'' (at_name cherry))
   \<and> answer demo_host \<noteq> Some ''Yes''
   \<and> Extract ''/w/cherry'' 5 \<notin> set (fst (snarfItem demo_host (package_node cherry)))
   \<and> ShowInformationMessage ''Succesfully snarfed cherry.'' []
        \<notin> set (fst (snarfItem demo_host (package_node cherry)))
   \<and> overwrite_prompt \<in> set (fst (snarfItem demo_host (package_node cherry)))"
proof -
  have exists: "existsSync demo_host (path_join demo_host ''/w'' (at_name cherry))"
    by (simp add: demo_host_def cherry_def)
  have declined: "answer demo_host \<noteq> Some ''Yes''"
    by (simp add: demo_host_def)
  from C7_declined_overwrite_is_silent [OF demo_folder _ demo_item exists declined]
  have "\<forall>p n. Extract p n \<notin> set (fst (snarfItem demo_host (package_node cherry)))"
    and "\<forall>m items. ShowInformationMessage m items \<in> set (fst (snarfItem demo_host (package_node cherry)))
           \<longrightarrow> ShowInformationMessage m items = overwrite_prompt"
    by simp_all
  then have "Extract ''/w/cherry'' 5 \<notin> set (fst (snarfItem demo_host (package_node cherry)))"
    and "ShowInformationMessage ''Succesfully snarfed cherry.'' []
        \<notin> set (fst (snarfItem demo_host (package_node cherry)))"
    by (auto simp: overwrite_prompt_def)
  moreover have "overwrite_prompt \<in> set (fst (snarfItem demo_host (package_node cherry)))"
    by (simp add: demo_snarf_cherry)
  ultimately show ?thesis using exists declined by simp
qed

text \<open>
  C8. The code does what the claim says only when \<^verbatim>\<open>workspace.workspaceFolders\<close> is
  undefined: then exactly one informational message is shown and nothing else happens
  (no request, no write). When the workspace is open with no folder in it
  (\<^verbatim>\<open>workspaceFolders\<close> is the empty list), line 88 throws a TypeError and no message is
  shown at all.
\<close>

theorem C8_no_workspace_folder:
  "(workspaceFolders env = None \<longrightarrow>
      snarfItem env it = ([ShowInformationMessage ''Please open a folder first.'' []], Returned))
   \<and> (workspaceFolders env = Some [] \<longrightarrow>
      snarfItem env it =
        ([], Threw (TypeError ''Cannot read properties of undefined (reading uri)'')))"
  by (simp add: snarfItem_def)

theorem C8_witness_undefined_and_empty:
  "snarfItem (demo_host\<lparr>workspaceFolders := None\<rparr>) (package_node cherry) =
     ([ShowInformationMessage ''Please open a folder first.'' []], Returned)
   \<and> snarfItem (demo_host\<lparr>workspaceFolders := Some []\<rparr>) (package_node cherry) =
     ([], Threw (TypeError ''Cannot read properties of undefined (reading uri)''))"
  using C8_no_workspace_folder [of "demo_host\<lparr>workspaceFolders := None\<rparr>" "package_node cherry"]
    C8_no_workspace_folder [of "demo_host\<lparr>workspaceFolders := Some []\<rparr>" "package_node cherry"]
  by simp

end
